theory Spec2Isabelle
  imports Main "HOL-Library.Word"
begin

section \<open>The driver's data, as connect.go uses it\<close>

text \<open>
  connect.go is written against two libraries, gocql and gocqlx. Only the parts of their
  types that connect.go reads or writes are kept. A \<open>time.Duration\<close> is a number of
  nanoseconds; a \<open>gocql.Consistency\<close> is a 16-bit code, of which \<open>gocql.One\<close> is 1.
\<close>

type_synonym Duration = int

definition Millisecond :: Duration where
  "Millisecond = 1000000"

definition Second :: Duration where
  "Second = 1000000000"

type_synonym gocql_Consistency = "16 word"

definition gocql_One :: gocql_Consistency where
  "gocql_One = 1"

datatype gocql_RetryPolicy =
    ExponentialBackoffRetryPolicy (NumRetries: int) (Min: Duration) (Max: Duration)
  | OtherRetryPolicy nat

datatype HostSelectionPolicy =
    RoundRobinHostPolicy
  | TokenAwareHostPolicy HostSelectionPolicy
  | OtherHostPolicy nat

datatype Authenticator =
    PasswordAuthenticator (Username: string) (Password: string)

text \<open>
  \<open>gocql.ClusterConfig\<close>: the fields connect.go assigns. A nil pointer or nil interface
  is \<open>None\<close>.
\<close>

record ClusterConfig =
  cc_Hosts :: "string list"
  cc_Keyspace :: string
  cc_Consistency :: gocql_Consistency
  cc_Timeout :: Duration
  cc_Authenticator :: "Authenticator option"
  cc_RetryPolicy :: "gocql_RetryPolicy option"
  cc_HostSelectionPolicy :: "HostSelectionPolicy option"
  cc_CQLVersion :: string
  cc_ProtoVersion :: int

text \<open>
  A value of Go's \<open>error\<close> in connect.go is either one that the driver returned, which
  the code passes on as it is, or the one that connect.go makes with \<open>errors.New\<close>.
  A driver error is named by its message.
\<close>

type_synonym driver_error = string

datatype error =
    DriverError driver_error
  | ErrorsNew string

text \<open>
  A \<open>context.Context\<close>: what the code can observe of it is whether its \<open>Done\<close> channel
  is closed. \<open>done_at\<close> is the instant of the cancellation, \<open>None\<close> when it never comes.
\<close>

datatype Context = Context (done_at: "nat option")

text \<open>A \<open>*gocqlx.Session\<close> is a pointer; its address stands for it.\<close>

type_synonym handle = nat

section \<open>Cluster options (connect.go, lines 12 to 79)\<close>

text \<open>
  \<open>type Option func(config *gocql.ClusterConfig)\<close>: the fields of the configuration are
  exported, so an \<open>Option\<close> may be any function on it. The pointer argument that the
  function mutates becomes an argument and a result.
\<close>

type_synonym Option = "ClusterConfig \<Rightarrow> ClusterConfig"

type_synonym Options = "Option list"

definition Options_add :: "Options \<Rightarrow> Option list \<Rightarrow> Options" where
  "Options_add opts o' = opts @ o'"

definition Option_apply :: "Option \<Rightarrow> ClusterConfig \<Rightarrow> ClusterConfig" where
  "Option_apply o' c = o' c"

fun Options_apply :: "Options \<Rightarrow> ClusterConfig \<Rightarrow> ClusterConfig" where
  "Options_apply [] c = c"
| "Options_apply (o' # opts) c = Options_apply opts (Option_apply o' c)"

definition WithHosts :: "string list \<Rightarrow> Option" where
  "WithHosts hosts = (\<lambda>config. config\<lparr>cc_Hosts := hosts\<rparr>)"

definition WithKeyspace :: "string \<Rightarrow> Option" where
  "WithKeyspace Keyspace = (\<lambda>config. config\<lparr>cc_Keyspace := Keyspace\<rparr>)"

definition WithConsistency :: "gocql_Consistency \<Rightarrow> Option" where
  "WithConsistency Consistency = (\<lambda>config. config\<lparr>cc_Consistency := Consistency\<rparr>)"

definition WithTimeout :: "Duration \<Rightarrow> Option" where
  "WithTimeout Timeout = (\<lambda>config. config\<lparr>cc_Timeout := Timeout\<rparr>)"

definition WithPasswordUsername :: "string \<Rightarrow> string \<Rightarrow> Option" where
  "WithPasswordUsername p u =
     (\<lambda>config. config\<lparr>cc_Authenticator := Some (PasswordAuthenticator p u)\<rparr>)"

definition version :: string where
  "version = ''3.11''"

definition DefaultOption :: Options where
  "DefaultOption =
     [ WithTimeout (10 * Second),
       WithConsistency gocql_One,
       (\<lambda>config. config\<lparr>cc_RetryPolicy :=
          Some (ExponentialBackoffRetryPolicy 5 (Millisecond * 5) (Second * 5))\<rparr>),
       (\<lambda>config. config\<lparr>cc_HostSelectionPolicy :=
          Some (TokenAwareHostPolicy RoundRobinHostPolicy)\<rparr>) ]"

definition defaultOption :: Options where
  "defaultOption = DefaultOption"

section \<open>Per-call query options (connect.go, lines 159 to 231)\<close>

text \<open>
  \<open>gocqlx.Queryx\<close>, as connect.go builds it: \<open>ContextQuery\<close> fixes the session, the
  context, the statement and the names; each modifier method that is then called on the
  query is kept, in the order of the calls.
\<close>

datatype modifier =
    Call_Strict
  | Call_Idempotent bool
  | Call_Consistency gocql_Consistency
  | Call_RetryPolicy gocql_RetryPolicy

record Queryx =
  q_session :: handle
  q_ctx :: Context
  q_stmt :: string
  q_Names :: "string list"
  q_calls :: "modifier list"

definition ContextQuery :: "handle \<Rightarrow> Context \<Rightarrow> string \<Rightarrow> string list \<Rightarrow> Queryx" where
  "ContextQuery h ctx stmt nms =
     \<lparr>q_session = h, q_ctx = ctx, q_stmt = stmt, q_Names = nms, q_calls = []\<rparr>"

definition Queryx_Strict :: "Queryx \<Rightarrow> Queryx" where
  "Queryx_Strict q = q\<lparr>q_calls := q_calls q @ [Call_Strict]\<rparr>"

definition Queryx_Idempotent :: "bool \<Rightarrow> Queryx \<Rightarrow> Queryx" where
  "Queryx_Idempotent b q = q\<lparr>q_calls := q_calls q @ [Call_Idempotent b]\<rparr>"

definition Queryx_Consistency :: "gocql_Consistency \<Rightarrow> Queryx \<Rightarrow> Queryx" where
  "Queryx_Consistency c q = q\<lparr>q_calls := q_calls q @ [Call_Consistency c]\<rparr>"

definition Queryx_RetryPolicy :: "gocql_RetryPolicy \<Rightarrow> Queryx \<Rightarrow> Queryx" where
  "Queryx_RetryPolicy p q = q\<lparr>q_calls := q_calls q @ [Call_RetryPolicy p]\<rparr>"

text \<open>
  \<open>type QueryOption struct\<close>: a nil pointer is \<open>None\<close>, a nil slice is the empty list.
  The type variable stands for Go's \<open>any\<close>. The field \<open>value\<close> is written \<open>value'\<close>.
\<close>

record 'v QueryOption =
  strict :: "bool option"
  idenpoten :: "bool option"
  con :: "gocql_Consistency option"
  rp :: "gocql_RetryPolicy option"
  value' :: "'v list"
  names :: "string list"

definition QueryOption_zero :: "'v QueryOption" where
  "QueryOption_zero =
     \<lparr>strict = None, idenpoten = None, con = None, rp = None, value' = [], names = []\<rparr>"

definition QueryOption_apply :: "'v QueryOption \<Rightarrow> Queryx \<Rightarrow> Queryx" where
  "QueryOption_apply qo q0 =
     (let q1 = (if strict qo \<noteq> None \<and> the (strict qo) then Queryx_Strict q0 else q0);
          q2 = (if idenpoten qo \<noteq> None then Queryx_Idempotent (the (idenpoten qo)) q1 else q1);
          q3 = (if con qo \<noteq> None then Queryx_Consistency (the (con qo)) q2 else q2);
          q4 = (if rp qo \<noteq> None then Queryx_RetryPolicy (the (rp qo)) q3 else q3)
      in q4)"

text \<open>
  \<open>type QueryOptionFunc func(qo *QueryOption)\<close>: the fields of \<open>QueryOption\<close> are not
  exported, so the values of this type are the closures that the six constructors of
  connect.go return. A closure is its constructor with the captured arguments;
  \<open>QueryOptionFunc_apply\<close> runs its body on the options it is given.
\<close>

datatype 'v QueryOptionFunc =
    Strict
  | Idenpotent bool
  | Consistency gocql_Consistency
  | RetryPolicy gocql_RetryPolicy
  | Bind "'v list"
  | Names "string list"

fun QueryOptionFunc_apply :: "'v QueryOptionFunc \<Rightarrow> 'v QueryOption \<Rightarrow> 'v QueryOption" where
  "QueryOptionFunc_apply Strict qo = qo\<lparr>strict := Some True\<rparr>"
| "QueryOptionFunc_apply (Idenpotent i) qo = qo\<lparr>idenpoten := Some i\<rparr>"
| "QueryOptionFunc_apply (Consistency c) qo = qo\<lparr>con := Some c\<rparr>"
| "QueryOptionFunc_apply (RetryPolicy p) qo = qo\<lparr>rp := Some p\<rparr>"
| "QueryOptionFunc_apply (Bind v) qo = qo\<lparr>value' := v\<rparr>"
| "QueryOptionFunc_apply (Names ns) qo = qo\<lparr>names := ns\<rparr>"

type_synonym 'v QueryOptions = "'v QueryOptionFunc list"

fun QueryOptions_apply :: "'v QueryOptions \<Rightarrow> 'v QueryOption \<Rightarrow> 'v QueryOption" where
  "QueryOptions_apply [] qo = qo"
| "QueryOptions_apply (o' # opts) qo = QueryOptions_apply opts (QueryOptionFunc_apply o' qo)"

section \<open>The query operations of a session (connect.go, lines 101 to 104 and 233 to 256)\<close>

record Session =
  options :: Options
  s :: handle

text \<open>
  The destination \<open>dest any\<close> of \<open>Get\<close> and \<open>Select\<close>: what the driver looks at
  before it scans a row is the type of the value, a pointer to a string, to a slice or to
  a struct, or no pointer at all.
\<close>

datatype dest_type = String_t | Slice_t dest_type | Struct_t

datatype dest = Ptr dest_type | Not_a_pointer

text \<open>
  What a query operation hands to the driver: the query it has built, the method that
  runs it, and the destination.
\<close>

datatype exec =
    Exec_Get Queryx dest
  | Exec_Iter Queryx
  | Exec_Select Queryx dest

fun exec_query :: "exec \<Rightarrow> Queryx" where
  "exec_query (Exec_Get q d) = q"
| "exec_query (Exec_Iter q) = q"
| "exec_query (Exec_Select q d) = q"

definition Session_Get ::
  "Session \<Rightarrow> Context \<Rightarrow> string \<Rightarrow> dest \<Rightarrow> 'v QueryOptionFunc list \<Rightarrow> exec" where
  "Session_Get sess ctx query dest optionFunc =
     (let opt = QueryOptions_apply optionFunc QueryOption_zero
      in Exec_Get (QueryOption_apply opt (ContextQuery (s sess) ctx query (names opt))) dest)"

definition Session_Iter :: "Session \<Rightarrow> Context \<Rightarrow> string \<Rightarrow> 'v QueryOptionFunc list \<Rightarrow> exec" where
  "Session_Iter sess ctx query optionFunc =
     (let opt = QueryOptions_apply optionFunc QueryOption_zero
      in Exec_Iter (QueryOption_apply opt (ContextQuery (s sess) ctx query (names opt))))"

definition Session_Select ::
  "Session \<Rightarrow> Context \<Rightarrow> string \<Rightarrow> dest \<Rightarrow> 'v QueryOptionFunc list \<Rightarrow> exec" where
  "Session_Select sess ctx query dest optionFunc =
     (let opt = QueryOptions_apply optionFunc QueryOption_zero
      in Exec_Select (ContextQuery (s sess) ctx query (names opt)) dest)"

section \<open>Connecting (connect.go, lines 81 to 99 and 135 to 143)\<close>

text \<open>
  \<open>go session.HandleConnect(ctx)\<close> starts a goroutine; the model returns it beside the
  session it is bound to. \<open>gocql.NewCluster()\<close> and \<open>cluster.CreateSession()\<close> belong
  to the driver and are parameters. The session pointer that \<open>gocqlx.NewSession\<close> wraps
  is named by the driver session it wraps.
\<close>

datatype goroutine = Go_HandleConnect Session Context

definition Connect_cluster :: "ClusterConfig \<Rightarrow> Option list \<Rightarrow> ClusterConfig" where
  "Connect_cluster NewCluster opts =
     (let cluster = Options_apply (Options_add defaultOption opts) NewCluster
      in cluster\<lparr>cc_CQLVersion := ''3.11'', cc_ProtoVersion := 3\<rparr>)"

definition Connect ::
  "ClusterConfig \<Rightarrow> (ClusterConfig \<Rightarrow> driver_error + handle) \<Rightarrow> Context \<Rightarrow> Option list
     \<Rightarrow> error + (Session \<times> goroutine)" where
  "Connect NewCluster CreateSession ctx opts =
     (case CreateSession (Connect_cluster NewCluster opts) of
        Inl err \<Rightarrow> Inl (DriverError err)
      | Inr cs \<Rightarrow>
          (let session = \<lparr>options = [], s = cs\<rparr>
           in Inr (session, Go_HandleConnect session ctx)))"

text \<open>
  \<open>Session.Connect\<close> returns the error, the session after the assignment \<open>s.s = ss.s\<close>,
  and the goroutines that the call has started.
\<close>

definition Session_Connect ::
  "ClusterConfig \<Rightarrow> (ClusterConfig \<Rightarrow> driver_error + handle) \<Rightarrow> Context \<Rightarrow> Session
     \<Rightarrow> error option \<times> Session \<times> goroutine list" where
  "Session_Connect NewCluster CreateSession ctx sess =
     (case Connect NewCluster CreateSession ctx [] of
        Inl err \<Rightarrow> (Some err, sess, [])
      | Inr (ss, g) \<Rightarrow> (None, sess\<lparr>s := s ss\<rparr>, [g]))"

section \<open>The liveness probe (connect.go, lines 145 to 157)\<close>

definition pingQuery :: string where
  "pingQuery = ''SELECT uuid() FROM system.local;''"

text \<open>
  \<open>run\<close> is the driver running the call that \<open>Select\<close> hands to it: it returns the
  driver's error, or the string then found in \<open>uid\<close>. The destination is \<open>&uid\<close> with
  \<open>var uid string\<close>, a pointer to a string.
\<close>

definition Ping :: "(exec \<Rightarrow> driver_error + string) \<Rightarrow> Session \<Rightarrow> Context \<Rightarrow> error option" where
  "Ping run sess ctx =
     (case run (Session_Select sess ctx pingQuery (Ptr String_t)
                  ([] :: unit QueryOptionFunc list)) of
        Inl err \<Rightarrow> Some (DriverError err)
      | Inr uid \<Rightarrow> if uid = '''' then Some (ErrorsNew ''empty uuid from db'') else None)"

section \<open>The supervisor loop (connect.go, lines 106 to 134)\<close>

definition reconnectAttempts :: nat where
  "reconnectAttempts = 10"

definition pingInterval :: Duration where
  "pingInterval = Second"

text \<open>
  The loop talks to a world it does not control. Instants are nanoseconds on the
  monotonic clock. For each call the loop makes, in the order it makes them, the world
  fixes how long the call takes and what it returns:
  \<^item> \<open>w_sched k\<close>, for the \<open>k\<close>-th \<open>select\<close>: the delay before the goroutine reaches the
    statement, and the case the runtime picks when both cases can proceed;
  \<^item> \<open>w_probe k\<close>, for the \<open>k\<close>-th \<open>Ping\<close>: its duration, and the driver running its query;
  \<^item> \<open>w_create k\<close>, for the \<open>k\<close>-th \<open>Session.Connect\<close>: its duration, and the driver's
    \<open>CreateSession\<close>.
\<close>

datatype select_case = Case_Done | Case_Timer

record world =
  w_NewCluster :: ClusterConfig
  w_sched :: "nat \<Rightarrow> nat \<times> select_case"
  w_probe :: "nat \<Rightarrow> nat \<times> (exec \<Rightarrow> driver_error + string)"
  w_create :: "nat \<Rightarrow> nat \<times> (ClusterConfig \<Rightarrow> driver_error + handle)"

text \<open>
  What the loop does that others can see: a call to \<open>Ping\<close> and a call to
  \<open>Session.Connect\<close>, each with the instant of the call, the instant of its return
  and its result; the start of a goroutine.
\<close>

datatype event =
    Ev_Ping nat nat "error option"
  | Ev_Connect nat nat "error option"
  | Ev_Go nat goroutine

text \<open>
  The state of one run of \<open>HandleConnect\<close>: the session \<open>*s\<close>, the clock, the instant
  at which the timer \<open>ticker\<close> delivers on its channel, the number of calls made so
  far, and the events so far.
\<close>

record sup =
  self :: Session
  now :: nat
  ticker :: nat
  selects :: nat
  pings :: nat
  connects :: nat
  trace :: "event list"

datatype status = Returned | Running

text \<open>
  The \<open>select\<close> of lines 115 to 119, on \<open>ctx.Done()\<close> and \<open>ticker.C\<close>. The goroutine
  reaches the statement at \<open>arrive\<close>. A case that can proceed then is taken; when both
  can, the runtime picks one. When none can, the goroutine sleeps until the first of
  the two instants, the cancellation and the timer. The result is the case taken and
  the instant at which it is taken.
\<close>

definition select_wait :: "Context \<Rightarrow> nat \<Rightarrow> nat \<Rightarrow> nat \<times> select_case \<Rightarrow> select_case \<times> nat" where
  "select_wait ctx tick t0 sc =
     (let arrive = t0 + fst sc; pick = snd sc
      in case done_at ctx of
           None \<Rightarrow> (Case_Timer, max arrive tick)
         | Some c \<Rightarrow>
             if c \<le> arrive \<and> tick \<le> arrive then (pick, arrive)
             else if c \<le> arrive then (Case_Done, arrive)
             else if tick \<le> arrive then (Case_Timer, arrive)
             else if c < tick then (Case_Done, c)
             else if tick < c then (Case_Timer, tick)
             else (pick, tick))"

text \<open>
  The loop of lines 125 to 127, \<open>for a := 0; a < reconnectAttempts && err != nil; a++\<close>,
  entered with \<open>a\<close> and \<open>err\<close>.
\<close>

function reconnect :: "world \<Rightarrow> Context \<Rightarrow> nat \<Rightarrow> error option \<Rightarrow> sup \<Rightarrow> error option \<times> sup" where
  "reconnect w ctx a err st =
     (if a < reconnectAttempts \<and> err \<noteq> None then
        (case Session_Connect (w_NewCluster w) (snd (w_create w (connects st))) ctx (self st) of
           (err', sess', gs) \<Rightarrow>
             reconnect w ctx (Suc a) err'
               (st\<lparr>self := sess',
                   now := now st + fst (w_create w (connects st)),
                   connects := Suc (connects st),
                   trace := trace st @ [Ev_Connect (now st) (now st + fst (w_create w (connects st))) err']
                            @ map (Ev_Go (now st + fst (w_create w (connects st)))) gs\<rparr>))
      else (err, st))"
  by pat_completeness auto
termination
  by (relation "measure (\<lambda>(w, ctx, a, err, st). reconnectAttempts - a)") auto

text \<open>
  The outer \<open>for\<close> of lines 114 to 132 may run for ever. \<open>fuel\<close> bounds the number of
  its iterations: the result is \<open>Returned\<close> with the state at the \<open>return\<close>, or
  \<open>Running\<close> with the state after \<open>fuel\<close> iterations. \<open>ticker.Reset(pingInterval)\<close>
  moves the timer to the present instant plus the interval.
\<close>

fun HandleConnect_loop :: "nat \<Rightarrow> world \<Rightarrow> Context \<Rightarrow> sup \<Rightarrow> status \<times> sup" where
  "HandleConnect_loop 0 w ctx st = (Running, st)"
| "HandleConnect_loop (Suc fuel) w ctx st =
     (case select_wait ctx (ticker st) (now st) (w_sched w (selects st)) of
        (Case_Done, t) \<Rightarrow> (Returned, st\<lparr>now := t, selects := Suc (selects st)\<rparr>)
      | (Case_Timer, t) \<Rightarrow>
          (let err = Ping (snd (w_probe w (pings st))) (self st) ctx;
               st1 = st\<lparr>now := t + fst (w_probe w (pings st)),
                        selects := Suc (selects st),
                        pings := Suc (pings st),
                        trace := trace st @ [Ev_Ping t (t + fst (w_probe w (pings st))) err]\<rparr>
           in if err = None then
                HandleConnect_loop fuel w ctx (st1\<lparr>ticker := now st1 + nat pingInterval\<rparr>)
              else
                (case reconnect w ctx 0 err st1 of
                   (err', st2) \<Rightarrow>
                     if err' \<noteq> None then (Returned, st2)
                     else HandleConnect_loop fuel w ctx
                            (st2\<lparr>ticker := now st2 + nat pingInterval\<rparr>))))"

text \<open>
  \<open>HandleConnect\<close> started at the instant \<open>t0\<close>: \<open>time.NewTimer(0)\<close> delivers at \<open>t0\<close>.
\<close>

definition HandleConnect :: "nat \<Rightarrow> world \<Rightarrow> Context \<Rightarrow> Session \<Rightarrow> nat \<Rightarrow> status \<times> sup" where
  "HandleConnect fuel w ctx session t0 =
     HandleConnect_loop fuel w ctx
       \<lparr>self = session, now = t0, ticker = t0 + nat 0, selects = 0, pings = 0, connects = 0,
        trace = []\<rparr>"

section \<open>What the properties are stated with\<close>

text \<open>
  The modifiers that section 4.2 of the specification asks for, from resolved options:
  the strict-binding flag, the idempotency flag, the consistency, the retry policy, in
  this order, each one only when it is set.
\<close>

definition spec_modifiers :: "'v QueryOption \<Rightarrow> modifier list" where
  "spec_modifiers qo =
     (case strict qo of Some True \<Rightarrow> [Call_Strict] | _ \<Rightarrow> [])
     @ (case idenpoten qo of Some b \<Rightarrow> [Call_Idempotent b] | None \<Rightarrow> [])
     @ (case con qo of Some c \<Rightarrow> [Call_Consistency c] | None \<Rightarrow> [])
     @ (case rp qo of Some p \<Rightarrow> [Call_RetryPolicy p] | None \<Rightarrow> [])"

fun is_Bind :: "'v QueryOptionFunc \<Rightarrow> bool" where
  "is_Bind (Bind v) = True"
| "is_Bind _ = False"

text \<open>An override list with every \<open>Bind\<close> taken out.\<close>

fun without_Bind :: "'v QueryOptionFunc list \<Rightarrow> 'v QueryOptionFunc list" where
  "without_Bind [] = []"
| "without_Bind (x # xs) = (if is_Bind x then without_Bind xs else x # without_Bind xs)"

definition same_but_value :: "'v QueryOption \<Rightarrow> 'v QueryOption \<Rightarrow> bool" where
  "same_but_value a b \<longleftrightarrow>
     strict a = strict b \<and> idenpoten a = idenpoten b \<and> con a = con b \<and> rp a = rp b
     \<and> names a = names b"

text \<open>
  A configuration to run the definitions on, as \<open>gocql.NewCluster()\<close> may return it
  when it is given no host. It serves in the sample runs only.
\<close>

definition NewCluster_sample :: ClusterConfig where
  "NewCluster_sample =
     \<lparr>cc_Hosts = [], cc_Keyspace = '''', cc_Consistency = 4, cc_Timeout = 11 * Second,
      cc_Authenticator = None, cc_RetryPolicy = None, cc_HostSelectionPolicy = None,
      cc_CQLVersion = ''3.0.0'', cc_ProtoVersion = 0\<rparr>"

text \<open>The instants of the probes, of the reconnection attempts, and the goroutines started.\<close>

fun ping_times :: "event list \<Rightarrow> nat list" where
  "ping_times [] = []"
| "ping_times (Ev_Ping t t' r # es) = t # ping_times es"
| "ping_times (Ev_Connect t t' r # es) = ping_times es"
| "ping_times (Ev_Go t g # es) = ping_times es"

fun connect_times :: "event list \<Rightarrow> nat list" where
  "connect_times [] = []"
| "connect_times (Ev_Ping t t' r # es) = connect_times es"
| "connect_times (Ev_Connect t t' r # es) = t # connect_times es"
| "connect_times (Ev_Go t g # es) = connect_times es"

fun goroutines :: "event list \<Rightarrow> goroutine list" where
  "goroutines [] = []"
| "goroutines (Ev_Ping t t' r # es) = goroutines es"
| "goroutines (Ev_Connect t t' r # es) = goroutines es"
| "goroutines (Ev_Go t g # es) = g # goroutines es"

text \<open>Each probe, as the instant of its call and the instant of its return.\<close>

fun ping_spans :: "event list \<Rightarrow> (nat \<times> nat) list" where
  "ping_spans [] = []"
| "ping_spans (Ev_Ping t t' r # es) = (t, t') # ping_spans es"
| "ping_spans (Ev_Connect t t' r # es) = ping_spans es"
| "ping_spans (Ev_Go t g # es) = ping_spans es"

text \<open>Each call of the list is made at least \<open>d\<close> after the return of the one before it.\<close>

fun spaced :: "nat \<Rightarrow> (nat \<times> nat) list \<Rightarrow> bool" where
  "spaced d [] = True"
| "spaced d [p] = True"
| "spaced d (p # q # ps) = (snd p + d \<le> fst q \<and> spaced d (q # ps))"

text \<open>
  What holds each time the outer loop is entered: the probes so far are spaced, and the
  timer is due no sooner than the interval after the return of each of them.
\<close>

definition probe_inv :: "sup \<Rightarrow> bool" where
  "probe_inv st \<longleftrightarrow>
     spaced (nat pingInterval) (ping_spans (trace st))
     \<and> (\<forall>p\<in>set (ping_spans (trace st)). snd p + nat pingInterval \<le> ticker st)"

text \<open>
  Sample runs. Every world below lets the goroutine reach each \<open>select\<close> without
  delay, a probe takes 5 ns and a connection attempt 3 ns. In \<open>world_cluster_down\<close>
  every probe and every \<open>CreateSession\<close> fails; in \<open>world_one_outage\<close> the first
  probe fails and every \<open>CreateSession\<close> returns the handle 2; in \<open>world_healthy\<close>
  every probe succeeds.
\<close>

definition session_sample :: Session where
  "session_sample = \<lparr>options = [], s = 1\<rparr>"

definition world_cluster_down :: world where
  "world_cluster_down =
     \<lparr>w_NewCluster = NewCluster_sample,
      w_sched = (\<lambda>k. (0, Case_Timer)),
      w_probe = (\<lambda>k. (5, \<lambda>e. Inl ''no connections'')),
      w_create = (\<lambda>k. (3, \<lambda>cfg. Inl ''no hosts''))\<rparr>"

definition world_one_outage :: world where
  "world_one_outage =
     \<lparr>w_NewCluster = NewCluster_sample,
      w_sched = (\<lambda>k. (0, Case_Timer)),
      w_probe = (\<lambda>k. if k = 0 then (5, \<lambda>e. Inl ''no connections'') else (5, \<lambda>e. Inr ''uuid'')),
      w_create = (\<lambda>k. (3, \<lambda>cfg. Inr 2))\<rparr>"

definition world_healthy :: world where
  "world_healthy =
     \<lparr>w_NewCluster = NewCluster_sample,
      w_sched = (\<lambda>k. (0, Case_Timer)),
      w_probe = (\<lambda>k. (5, \<lambda>e. Inr ''uuid'')),
      w_create = (\<lambda>k. (3, \<lambda>cfg. Inr 2))\<rparr>"

text \<open>The calls to \<open>Ping\<close> and \<open>Session.Connect\<close> made after the instant \<open>c\<close>.\<close>

fun calls_after :: "nat \<Rightarrow> event list \<Rightarrow> event list" where
  "calls_after c [] = []"
| "calls_after c (Ev_Ping t t' r # es) =
     (if c < t then Ev_Ping t t' r # calls_after c es else calls_after c es)"
| "calls_after c (Ev_Connect t t' r # es) =
     (if c < t then Ev_Connect t t' r # calls_after c es else calls_after c es)"
| "calls_after c (Ev_Go t g # es) = calls_after c es"

text \<open>
  The handles that supervisor loops work on at the end of a run: the handle of the loop
  that was run, when it has not returned, and the handle of the session of each loop
  that it has started.
\<close>

fun goroutine_handle :: "goroutine \<Rightarrow> handle" where
  "goroutine_handle (Go_HandleConnect se ctx) = s se"

definition loops_on :: "status \<times> sup \<Rightarrow> handle list" where
  "loops_on r =
     (if fst r = Running then [s (self (snd r))] else [])
     @ map goroutine_handle (goroutines (trace (snd r)))"

text \<open>The destinations that \<open>Select\<close> of gocqlx accepts: a pointer to a slice.\<close>

fun is_slice_ptr :: "dest \<Rightarrow> bool" where
  "is_slice_ptr (Ptr (Slice_t t)) = True"
| "is_slice_ptr d = False"

text \<open>
  A driver to run \<open>Ping\<close> on. As gocqlx does, its \<open>Select\<close> refuses a destination that
  is no pointer to a slice before it scans a row; every other call finds the string
  \<open>6f1c\<close>.
\<close>

fun driver_sample :: "exec \<Rightarrow> driver_error + string" where
  "driver_sample (Exec_Select q d) =
     (if is_slice_ptr d then Inr ''6f1c'' else Inl ''expected slice but got string'')"
| "driver_sample (Exec_Get q d) = Inr ''6f1c''"
| "driver_sample (Exec_Iter q) = Inr ''6f1c''"

text \<open>
  Each call of the loop, a probe or a connection attempt, as the instant of the call and
  the instant of its return.
\<close>

fun call_spans :: "event list \<Rightarrow> (nat \<times> nat) list" where
  "call_spans [] = []"
| "call_spans (Ev_Ping t t' r # es) = (t, t') # call_spans es"
| "call_spans (Ev_Connect t t' r # es) = (t, t') # call_spans es"
| "call_spans (Ev_Go t g # es) = call_spans es"

text \<open>
  No two calls of the list run at the same time: each call returns no earlier than it is
  made, and is made no earlier than the return of the call before it.
\<close>

fun sequential :: "(nat \<times> nat) list \<Rightarrow> bool" where
  "sequential [] = True"
| "sequential [p] = (fst p \<le> snd p)"
| "sequential (p # q # ps) = (fst p \<le> snd p \<and> snd p \<le> fst q \<and> sequential (q # ps))"

text \<open>
  What holds at every point of the loop: the calls so far are sequential, and each has
  returned by now.
\<close>

definition seq_inv :: "sup \<Rightarrow> bool" where
  "seq_inv st \<longleftrightarrow>
     sequential (call_spans (trace st))
     \<and> (\<forall>p\<in>set (call_spans (trace st)). snd p \<le> now st)"

section \<open>Resolving query options\<close>

declare reconnect.simps [simp del]

lemma QueryOptions_apply_append:
  "QueryOptions_apply (xs @ ys) qo = QueryOptions_apply ys (QueryOptions_apply xs qo)"
  by (induction xs arbitrary: qo) simp_all

text \<open>
  C7. Resolving \<open>[Idenpotent(true), Consistency(X), Idenpotent(false)]\<close> gives idempotency
  false and consistency \<open>X\<close>. In general the override given last decides its field: after
  any list of overrides, the field that the last one sets holds the value it carries.
\<close>

theorem resolve_last_wins:
  "idenpoten (QueryOptions_apply [Idenpotent True, Consistency X, Idenpotent False]
      QueryOption_zero) = Some False
   \<and> con (QueryOptions_apply [Idenpotent True, Consistency X, Idenpotent False]
      QueryOption_zero) = Some X
   \<and> strict (QueryOptions_apply (os @ [Strict]) qo) = Some True
   \<and> idenpoten (QueryOptions_apply (os @ [Idenpotent b]) qo) = Some b
   \<and> con (QueryOptions_apply (os @ [Consistency c]) qo) = Some c
   \<and> rp (QueryOptions_apply (os @ [RetryPolicy p]) qo) = Some p
   \<and> value' (QueryOptions_apply (os @ [Bind v]) qo) = v
   \<and> names (QueryOptions_apply (os @ [Names ns]) qo) = ns"
  by (simp add: QueryOptions_apply_append QueryOption_zero_def)

section \<open>The modifiers a query operation applies\<close>

lemma QueryOption_apply_calls:
  "q_calls (QueryOption_apply qo q) = q_calls q @ spec_modifiers qo"
  by (simp add: QueryOption_apply_def spec_modifiers_def Let_def Queryx_Strict_def
      Queryx_Idempotent_def Queryx_Consistency_def Queryx_RetryPolicy_def
      split: option.splits bool.splits)

text \<open>
  \<open>Get\<close> and \<open>Iter\<close> call on the query exactly the modifiers that the specification
  asks for, in its order.
\<close>

lemma Session_Get_calls:
  "q_calls (exec_query (Session_Get sess ctx query dest os)) =
     spec_modifiers (QueryOptions_apply os QueryOption_zero)"
  by (simp add: Session_Get_def Let_def QueryOption_apply_calls ContextQuery_def)

lemma Session_Iter_calls:
  "q_calls (exec_query (Session_Iter sess ctx query os)) =
     spec_modifiers (QueryOptions_apply os QueryOption_zero)"
  by (simp add: Session_Iter_def Let_def QueryOption_apply_calls ContextQuery_def)

text \<open>
  C1. The specification has \<open>Get\<close>, \<open>Select\<close> and \<open>Iter\<close> all apply the resolved
  modifiers. \<open>Select\<close> does not: whatever the overrides, the query it runs carries no
  modifier. With the one override \<open>Idenpotent(true)\<close>, \<open>Get\<close> and \<open>Iter\<close> call
  \<open>Idempotent(true)\<close> on the query and \<open>Select\<close> calls nothing.
\<close>

theorem Select_applies_no_modifier:
  "q_calls (exec_query (Session_Select sess ctx query dest os)) = []
   \<and> q_calls (exec_query (Session_Get sess ctx query dest [Idenpotent True])) = [Call_Idempotent True]
   \<and> q_calls (exec_query (Session_Iter sess ctx query [Idenpotent True])) = [Call_Idempotent True]"
  by (simp add: Session_Select_def Session_Get_calls Session_Iter_calls ContextQuery_def
       spec_modifiers_def QueryOption_zero_def)

section \<open>Bound values\<close>

lemma same_but_value_step:
  "same_but_value a b \<Longrightarrow> same_but_value (QueryOptionFunc_apply x a) (QueryOptionFunc_apply x b)"
  by (cases x) (simp_all add: same_but_value_def)

lemma without_Bind_same:
  "same_but_value a b \<Longrightarrow>
   same_but_value (QueryOptions_apply os a) (QueryOptions_apply (without_Bind os) b)"
proof (induction os arbitrary: a b)
  case Nil
  then show ?case by simp
next
  case (Cons x os)
  show ?case
  proof (cases "is_Bind x")
    case True
    then obtain v where "x = Bind v" by (cases x) simp_all
    with Cons show ?thesis by (simp add: same_but_value_def)
  next
    case False
    with Cons same_but_value_step[of a b x] show ?thesis by simp
  qed
qed

lemma QueryOption_apply_cong:
  "same_but_value a b \<Longrightarrow> QueryOption_apply a q = QueryOption_apply b q"
  by (simp add: same_but_value_def QueryOption_apply_def)

lemma QueryOption_apply_Names: "q_Names (QueryOption_apply a q) = q_Names q"
  by (simp add: QueryOption_apply_def Let_def Queryx_Strict_def
      Queryx_Idempotent_def Queryx_Consistency_def Queryx_RetryPolicy_def)

text \<open>
  C3. The values of a \<open>Bind\<close> override are kept in the resolved options, and no query
  operation reads them: \<open>Get\<close>, \<open>Select\<close> and \<open>Iter\<close> hand the driver the same query
  and call when every \<open>Bind\<close> is taken out of the override list. The names of a \<open>Names\<close>
  override do reach the query.
\<close>

theorem Bind_never_reaches_query:
  "value' (QueryOptions_apply (os @ [Bind v]) qo) = v
   \<and> Session_Get sess ctx query dest os = Session_Get sess ctx query dest (without_Bind os)
   \<and> Session_Select sess ctx query dest os = Session_Select sess ctx query dest (without_Bind os)
   \<and> Session_Iter sess ctx query os = Session_Iter sess ctx query (without_Bind os)
   \<and> q_Names (exec_query (Session_Get sess ctx query dest (os @ [Names ns]))) = ns
   \<and> q_Names (exec_query (Session_Select sess ctx query dest (os @ [Names ns]))) = ns
   \<and> q_Names (exec_query (Session_Iter sess ctx query (os @ [Names ns]))) = ns"
proof -
  have sb: "same_but_value (QueryOptions_apply os QueryOption_zero)
              (QueryOptions_apply (without_Bind os) QueryOption_zero)"
    by (rule without_Bind_same) (simp add: same_but_value_def)
  then have nm: "names (QueryOptions_apply os QueryOption_zero)
       = names (QueryOptions_apply (without_Bind os) (QueryOption_zero :: 'a QueryOption))"
    by (simp add: same_but_value_def)
  have 1: "value' (QueryOptions_apply (os @ [Bind v]) qo) = v"
    by (simp add: QueryOptions_apply_append)
  have 2: "Session_Get sess ctx query dest os = Session_Get sess ctx query dest (without_Bind os)"
    by (simp add: Session_Get_def Let_def nm QueryOption_apply_cong[OF sb])
  have 3: "Session_Select sess ctx query dest os = Session_Select sess ctx query dest (without_Bind os)"
    by (simp add: Session_Select_def Let_def nm)
  have 4: "Session_Iter sess ctx query os = Session_Iter sess ctx query (without_Bind os)"
    by (simp add: Session_Iter_def Let_def nm QueryOption_apply_cong[OF sb])
  have 5: "q_Names (exec_query (Session_Get sess ctx query dest (os @ [Names ns]))) = ns"
    by (simp add: Session_Get_def Let_def QueryOption_apply_Names ContextQuery_def
        QueryOptions_apply_append)
  have 6: "q_Names (exec_query (Session_Select sess ctx query dest (os @ [Names ns]))) = ns"
    by (simp add: Session_Select_def Let_def ContextQuery_def QueryOptions_apply_append)
  have 7: "q_Names (exec_query (Session_Iter sess ctx query (os @ [Names ns]))) = ns"
    by (simp add: Session_Iter_def Let_def QueryOption_apply_Names ContextQuery_def
        QueryOptions_apply_append)
  from 1 2 3 4 5 6 7 show ?thesis by blast
qed

section \<open>Building the cluster configuration\<close>






text \<open>
  C2. The specification has a session keep the configuration it was made from, and a
  reconnection build the new configuration from the baseline and the session's own
  overrides. \<open>Connect\<close> leaves the field \<open>options\<close> of the session it returns empty,
  whatever overrides it was given, and \<open>Session.Connect\<close> calls \<open>Connect\<close> with no
  override: the configuration that reaches \<open>CreateSession\<close> on a reconnection is the
  one for the empty override list. After \<open>WithHosts("h1")\<close> and \<open>WithKeyspace("ks")\<close>,
  the first connection is made to \<open>h1\<close> and \<open>ks\<close>, and a reconnection to the hosts
  and the keyspace of \<open>gocql.NewCluster()\<close>.
\<close>

theorem reconnect_drops_overrides:
  "Connect c0 (\<lambda>cfg. Inr h) ctx opts
      = Inr (\<lparr>options = [], s = h\<rparr>, Go_HandleConnect \<lparr>options = [], s = h\<rparr> ctx)
   \<and> Session_Connect c0 cs ctx sess
      = (case cs (Connect_cluster c0 []) of
           Inl e \<Rightarrow> (Some (DriverError e), sess, [])
         | Inr h' \<Rightarrow> (None, sess\<lparr>s := h'\<rparr>, [Go_HandleConnect \<lparr>options = [], s = h'\<rparr> ctx]))
   \<and> cc_Hosts (Connect_cluster c0 [WithHosts [''h1''], WithKeyspace ''ks'']) = [''h1'']
   \<and> cc_Keyspace (Connect_cluster c0 [WithHosts [''h1''], WithKeyspace ''ks'']) = ''ks''
   \<and> cc_Hosts (Connect_cluster c0 []) = cc_Hosts c0
   \<and> cc_Keyspace (Connect_cluster c0 []) = cc_Keyspace c0"
  by (simp add: Connect_def Session_Connect_def Connect_cluster_def Options_add_def
      defaultOption_def DefaultOption_def Option_apply_def WithHosts_def WithKeyspace_def
      WithTimeout_def WithConsistency_def Let_def split: sum.splits)

section \<open>The result of a probe\<close>

lemma Ping_cases:
  "Ping run sess ctx =
     (case run (Exec_Select
                  (ContextQuery (s sess) ctx ''SELECT uuid() FROM system.local;'' [])
                  (Ptr String_t)) of
        Inl e \<Rightarrow> Some (DriverError e)
      | Inr uid \<Rightarrow> if uid = '''' then Some (ErrorsNew ''empty uuid from db'') else None)"
  by (simp add: Ping_def pingQuery_def Session_Select_def QueryOption_zero_def)

text \<open>
  C9. The specification has \<open>Ping\<close> return nil exactly when the probe query succeeds
  with a non-empty string, and a validation error of its own when the result is empty.
  \<open>Ping\<close> runs the fixed query through \<open>Select\<close> with the destination \<open>&uid\<close>, a
  pointer to a string. With a driver whose \<open>Select\<close> refuses every destination that is
  no pointer to a slice, as gocqlx does, every call of \<open>Ping\<close> returns the driver's
  error: never nil, and never the error for an empty uuid.
\<close>

theorem Ping_never_nil:
  "Ping run sess ctx =
     (case run (Exec_Select
                  (ContextQuery (s sess) ctx ''SELECT uuid() FROM system.local;'' [])
                  (Ptr String_t)) of
        Inl e \<Rightarrow> Some (DriverError e)
      | Inr uid \<Rightarrow> if uid = '''' then Some (ErrorsNew ''empty uuid from db'') else None)
   \<and> ((\<forall>q d. \<not> is_slice_ptr d \<longrightarrow> isl (run (Exec_Select q d))) \<longrightarrow>
        (\<exists>e. Ping run sess ctx = Some (DriverError e))
        \<and> Ping run sess ctx \<noteq> None
        \<and> Ping run sess ctx \<noteq> Some (ErrorsNew ''empty uuid from db''))"
proof -
  have 2: "(\<exists>e. Ping run sess ctx = Some (DriverError e))
        \<and> Ping run sess ctx \<noteq> None
        \<and> Ping run sess ctx \<noteq> Some (ErrorsNew ''empty uuid from db'')"
    if refuses: "\<forall>q d. \<not> is_slice_ptr d \<longrightarrow> isl (run (Exec_Select q d))"
  proof -
    let ?call = "Exec_Select
                  (ContextQuery (s sess) ctx ''SELECT uuid() FROM system.local;'' [])
                  (Ptr String_t)"
    from refuses have "isl (run ?call)" by simp
    then obtain e where "run ?call = Inl e" by (cases "run ?call") simp_all
    then show ?thesis by (simp add: Ping_cases)
  qed
  from Ping_cases 2 show ?thesis by blast
qed

text \<open>
  On the sample driver, whose query would succeed with the string \<open>6f1c\<close>: \<open>Ping\<close>
  returns the driver's refusal of the destination.
\<close>

theorem Ping_never_nil_witness:
  "Ping driver_sample session_sample (Context None)
     = Some (DriverError ''expected slice but got string'')
   \<and> Ping driver_sample session_sample (Context None) \<noteq> None
   \<and> driver_sample (Exec_Select
         (ContextQuery (s session_sample) (Context None) ''SELECT uuid() FROM system.local;'' [])
         (Ptr (Slice_t String_t))) = Inr ''6f1c''"
proof -
  have refuses: "\<forall>q d. \<not> is_slice_ptr d \<longrightarrow> isl (driver_sample (Exec_Select q d))"
    by simp
  from Ping_never_nil [of driver_sample session_sample "Context None"] refuses
  have "Ping driver_sample session_sample (Context None) \<noteq> None"
    and "Ping driver_sample session_sample (Context None) =
     (case driver_sample (Exec_Select
                  (ContextQuery (s session_sample) (Context None)
                     ''SELECT uuid() FROM system.local;'' [])
                  (Ptr String_t)) of
        Inl e \<Rightarrow> Some (DriverError e)
      | Inr uid \<Rightarrow> if uid = '''' then Some (ErrorsNew ''empty uuid from db'') else None)"
    by blast+
  then show ?thesis by simp
qed

section \<open>The supervisor loop, step by step\<close>

lemma ping_times_append: "ping_times (xs @ ys) = ping_times xs @ ping_times ys"
  by (induction xs rule: ping_times.induct) simp_all

lemma ping_spans_append: "ping_spans (xs @ ys) = ping_spans xs @ ping_spans ys"
  by (induction xs rule: ping_spans.induct) simp_all

lemma connect_times_append: "connect_times (xs @ ys) = connect_times xs @ connect_times ys"
  by (induction xs rule: connect_times.induct) simp_all

lemma goroutines_append: "goroutines (xs @ ys) = goroutines xs @ goroutines ys"
  by (induction xs rule: goroutines.induct) simp_all

lemma ping_times_Go: "ping_times (map (Ev_Go t) gs) = []"
  by (induction gs) simp_all

lemma ping_spans_Go: "ping_spans (map (Ev_Go t) gs) = []"
  by (induction gs) simp_all

lemma connect_times_Go: "connect_times (map (Ev_Go t) gs) = []"
  by (induction gs) simp_all

lemma goroutines_Go: "goroutines (map (Ev_Go t) gs) = gs"
  by (induction gs) simp_all

lemma spaced_snoc:
  "spaced d ps \<Longrightarrow> (\<forall>p\<in>set ps. snd p + d \<le> fst q) \<Longrightarrow> spaced d (ps @ [q])"
  by (induction d ps rule: spaced.induct) simp_all

lemma select_wait_Timer:
  "select_wait ctx tick t0 sc = (Case_Timer, t) \<Longrightarrow> tick \<le> t \<and> t0 \<le> t"
  by (auto simp: select_wait_def Let_def split: option.splits if_splits)

lemma select_wait_Done:
  "select_wait ctx tick t0 sc = (Case_Done, t) \<Longrightarrow> \<exists>c. done_at ctx = Some c \<and> c \<le> t"
  by (auto simp: select_wait_def Let_def split: option.splits if_splits)

lemma reconnect_exhausted: "\<not> a < reconnectAttempts \<Longrightarrow> reconnect w ctx a err st = (err, st)"
  by (simp add: reconnect.simps[of w ctx a err st])

lemma reconnect_ok: "reconnect w ctx a None st = (None, st)"
  by (simp add: reconnect.simps[of w ctx a None st])

lemma reconnect_step:
  "a < reconnectAttempts \<Longrightarrow> err \<noteq> None \<Longrightarrow>
   Session_Connect (w_NewCluster w) (snd (w_create w (connects st))) ctx (self st) = (err', sess', gs) \<Longrightarrow>
   reconnect w ctx a err st =
     reconnect w ctx (Suc a) err'
       (st\<lparr>self := sess',
           now := now st + fst (w_create w (connects st)),
           connects := Suc (connects st),
           trace := trace st @ [Ev_Connect (now st) (now st + fst (w_create w (connects st))) err']
                    @ map (Ev_Go (now st + fst (w_create w (connects st)))) gs\<rparr>)"
  by (simp add: reconnect.simps[of w ctx a err st])

lemma reconnect_frame:
  "ping_times (trace (snd (reconnect w ctx a err st))) = ping_times (trace st)
   \<and> ping_spans (trace (snd (reconnect w ctx a err st))) = ping_spans (trace st)
   \<and> now st \<le> now (snd (reconnect w ctx a err st))
   \<and> pings (snd (reconnect w ctx a err st)) = pings st
   \<and> selects (snd (reconnect w ctx a err st)) = selects st
   \<and> ticker (snd (reconnect w ctx a err st)) = ticker st"
proof (induction "reconnectAttempts - a" arbitrary: a err st)
  case 0
  then show ?case by (simp add: reconnect_exhausted)
next
  case (Suc n)
  show ?case
  proof (cases "a < reconnectAttempts \<and> err \<noteq> None")
    case False
    then show ?thesis by (cases err) (simp_all add: reconnect_exhausted reconnect_ok)
  next
    case True
    obtain err' sess' gs where sc:
      "Session_Connect (w_NewCluster w) (snd (w_create w (connects st))) ctx (self st) = (err', sess', gs)"
      by (cases "Session_Connect (w_NewCluster w) (snd (w_create w (connects st))) ctx (self st)")
    let ?st' = "st\<lparr>self := sess',
                   now := now st + fst (w_create w (connects st)),
                   connects := Suc (connects st),
                   trace := trace st @ [Ev_Connect (now st) (now st + fst (w_create w (connects st))) err']
                            @ map (Ev_Go (now st + fst (w_create w (connects st)))) gs\<rparr>"
    have eq: "reconnect w ctx a err st = reconnect w ctx (Suc a) err' ?st'"
      using True sc by (simp add: reconnect_step)
    have n: "n = reconnectAttempts - Suc a" using Suc.hyps(2) by simp
    from Suc.hyps(1)[OF n, of err' ?st'] show ?thesis
      by (simp add: eq ping_times_append ping_times_Go ping_spans_append ping_spans_Go)
  qed
qed


lemma loop_Done:
  "select_wait ctx (ticker st) (now st) (w_sched w (selects st)) = (Case_Done, t) \<Longrightarrow>
   HandleConnect_loop (Suc fuel) w ctx st = (Returned, st\<lparr>now := t, selects := Suc (selects st)\<rparr>)"
  by simp

lemma loop_Timer_ok:
  "select_wait ctx (ticker st) (now st) (w_sched w (selects st)) = (Case_Timer, t) \<Longrightarrow>
   Ping (snd (w_probe w (pings st))) (self st) ctx = None \<Longrightarrow>
   HandleConnect_loop (Suc fuel) w ctx st =
     HandleConnect_loop fuel w ctx
       (st\<lparr>now := t + fst (w_probe w (pings st)),
           selects := Suc (selects st),
           pings := Suc (pings st),
           trace := trace st @ [Ev_Ping t (t + fst (w_probe w (pings st))) None],
           ticker := t + fst (w_probe w (pings st)) + nat pingInterval\<rparr>)"
  by (simp add: Let_def)

lemma loop_Timer_fail:
  "select_wait ctx (ticker st) (now st) (w_sched w (selects st)) = (Case_Timer, t) \<Longrightarrow>
   Ping (snd (w_probe w (pings st))) (self st) ctx = Some e \<Longrightarrow>
   reconnect w ctx 0 (Some e)
     (st\<lparr>now := t + fst (w_probe w (pings st)),
         selects := Suc (selects st),
         pings := Suc (pings st),
         trace := trace st @ [Ev_Ping t (t + fst (w_probe w (pings st))) (Some e)]\<rparr>) = (err', st2) \<Longrightarrow>
   HandleConnect_loop (Suc fuel) w ctx st =
     (if err' \<noteq> None then (Returned, st2)
      else HandleConnect_loop fuel w ctx (st2\<lparr>ticker := now st2 + nat pingInterval\<rparr>))"
  by (simp add: Let_def)

lemma loop_spaced:
  "probe_inv st \<Longrightarrow>
   spaced (nat pingInterval) (ping_spans (trace (snd (HandleConnect_loop fuel w ctx st))))"
proof (induction fuel arbitrary: st)
  case 0
  then show ?case by (simp add: probe_inv_def)
next
  case (Suc fuel)
  obtain c t where sel: "select_wait ctx (ticker st) (now st) (w_sched w (selects st)) = (c, t)"
    by (cases "select_wait ctx (ticker st) (now st) (w_sched w (selects st))")
  show ?case
  proof (cases c)
    case Case_Done
    with sel Suc.prems show ?thesis by (simp add: loop_Done probe_inv_def)
  next
    case Case_Timer
    with sel have selT: "select_wait ctx (ticker st) (now st) (w_sched w (selects st)) = (Case_Timer, t)"
      by simp
    then have tick: "ticker st \<le> t" by (simp add: select_wait_Timer)
    let ?t' = "t + fst (w_probe w (pings st))"
    have sp: "\<And>r. spaced (nat pingInterval) (ping_spans (trace st @ [Ev_Ping t ?t' r]))"
      using Suc.prems tick by (auto simp: probe_inv_def ping_spans_append intro!: spaced_snoc)
    have bound: "\<And>r p. p \<in> set (ping_spans (trace st @ [Ev_Ping t ?t' r])) \<Longrightarrow> snd p \<le> ?t'"
      using Suc.prems tick by (fastforce simp: probe_inv_def ping_spans_append)
    show ?thesis
    proof (cases "Ping (snd (w_probe w (pings st))) (self st) ctx")
      case None
      let ?st' = "st\<lparr>now := t + fst (w_probe w (pings st)),
           selects := Suc (selects st),
           pings := Suc (pings st),
           trace := trace st @ [Ev_Ping t (t + fst (w_probe w (pings st))) None],
           ticker := t + fst (w_probe w (pings st)) + nat pingInterval\<rparr>"
      have "probe_inv ?st'"
        using sp[of None] bound[of _ None] by (fastforce simp: probe_inv_def)
      from Suc.IH[OF this] show ?thesis by (simp only: loop_Timer_ok[OF selT None])
    next
      case (Some e)
      let ?st1 = "st\<lparr>now := t + fst (w_probe w (pings st)),
         selects := Suc (selects st),
         pings := Suc (pings st),
         trace := trace st @ [Ev_Ping t (t + fst (w_probe w (pings st))) (Some e)]\<rparr>"
      obtain err' st2 where rc: "reconnect w ctx 0 (Some e) ?st1 = (err', st2)"
        by (cases "reconnect w ctx 0 (Some e) ?st1")
      from reconnect_frame[of w ctx 0 "Some e" ?st1] rc
      have fr: "ping_spans (trace st2)
                  = ping_spans (trace st @ [Ev_Ping t (t + fst (w_probe w (pings st))) (Some e)])"
        and nw: "t + fst (w_probe w (pings st)) \<le> now st2"
        by simp_all
      show ?thesis
      proof (cases "err' = None")
        case False
        then show ?thesis
          using sp[of "Some e"] fr by (simp only: loop_Timer_fail[OF selT Some rc]) simp
      next
        case True
        have "probe_inv (st2\<lparr>ticker := now st2 + nat pingInterval\<rparr>)"
          using sp[of "Some e"] bound[of _ "Some e"] fr nw by (fastforce simp: probe_inv_def)
        from Suc.IH[OF this] True show ?thesis
          by (simp only: loop_Timer_fail[OF selT Some rc]) simp
      qed
    qed
  qed
qed

lemmas run_defs =
  HandleConnect_def select_wait_def Ping_def Session_Select_def Session_Connect_def Connect_def
  Connect_cluster_def ContextQuery_def QueryOption_zero_def reconnect.simps Let_def
  pingInterval_def Second_def reconnectAttempts_def session_sample_def

lemma Session_Connect_fail:
  "isl (cs (Connect_cluster c0 [])) \<Longrightarrow>
   Session_Connect c0 cs ctx se = (Some (DriverError (projl (cs (Connect_cluster c0 [])))), se, [])"
  by (cases "cs (Connect_cluster c0 [])") (simp_all add: Session_Connect_def Connect_def)

lemma reconnect_all_fail:
  "err \<noteq> None \<Longrightarrow>
   (\<forall>i < reconnectAttempts - a.
      isl (snd (w_create w (connects st + i)) (Connect_cluster (w_NewCluster w) []))) \<Longrightarrow>
   fst (reconnect w ctx a err st) \<noteq> None
   \<and> self (snd (reconnect w ctx a err st)) = self st
   \<and> length (connect_times (trace (snd (reconnect w ctx a err st))))
       = length (connect_times (trace st)) + (reconnectAttempts - a)
   \<and> goroutines (trace (snd (reconnect w ctx a err st))) = goroutines (trace st)"
proof (induction "reconnectAttempts - a" arbitrary: a err st)
  case 0
  then show ?case by (simp add: reconnect_exhausted)
next
  case (Suc n)
  then have a: "a < reconnectAttempts" and n: "n = reconnectAttempts - Suc a" by simp_all
  from Suc.prems(2) a
  have f0: "isl (snd (w_create w (connects st)) (Connect_cluster (w_NewCluster w) []))"
    by (metis add.right_neutral zero_less_diff)
  let ?e = "Some (DriverError (projl (snd (w_create w (connects st)) (Connect_cluster (w_NewCluster w) []))))"
  let ?st' = "st\<lparr>self := self st,
                   now := now st + fst (w_create w (connects st)),
                   connects := Suc (connects st),
                   trace := trace st @ [Ev_Connect (now st) (now st + fst (w_create w (connects st))) ?e]
                            @ map (Ev_Go (now st + fst (w_create w (connects st)))) []\<rparr>"
  have eq: "reconnect w ctx a err st = reconnect w ctx (Suc a) ?e ?st'"
    by (rule reconnect_step[OF a Suc.prems(1)
          Session_Connect_fail[of "snd (w_create w (connects st))" "w_NewCluster w" ctx "self st", OF f0]])
  have rest: "\<forall>i < reconnectAttempts - Suc a.
      isl (snd (w_create w (connects ?st' + i)) (Connect_cluster (w_NewCluster w) []))"
  proof (intro allI impI)
    fix i assume "i < reconnectAttempts - Suc a"
    then have "Suc i < reconnectAttempts - a" by simp
    with Suc.prems(2) have "isl (snd (w_create w (connects st + Suc i)) (Connect_cluster (w_NewCluster w) []))"
      by blast
    then show "isl (snd (w_create w (connects ?st' + i)) (Connect_cluster (w_NewCluster w) []))"
      by simp
  qed
  from Suc.hyps(1)[OF n _ rest, of ?e] a show ?case
    by (simp add: eq connect_times_append goroutines_append)
qed

section \<open>Fail-stop\<close>

text \<open>
  C5. Take the loop at the head of any iteration, in any state. If the timer case is
  taken, the probe fails and the driver refuses each of the next ten connection
  attempts, then the loop returns in that iteration. It has made that one probe and
  exactly ten attempts, it has started no goroutine, and the session holds the handle it
  held. The result is the same however many more iterations the loop is allowed: after
  the return there is no further probe and no further attempt.
\<close>

theorem fail_stop:
  assumes timer: "fst (select_wait ctx (ticker st) (now st) (w_sched w (selects st))) = Case_Timer"
      and probe: "Ping (snd (w_probe w (pings st))) (self st) ctx \<noteq> None"
      and factory: "\<forall>i<reconnectAttempts.
                 isl (snd (w_create w (connects st + i)) (Connect_cluster (w_NewCluster w) []))"
  shows "fst (HandleConnect_loop (Suc fuel) w ctx st) = Returned
       \<and> self (snd (HandleConnect_loop (Suc fuel) w ctx st)) = self st
       \<and> ping_times (trace (snd (HandleConnect_loop (Suc fuel) w ctx st)))
           = ping_times (trace st) @ [snd (select_wait ctx (ticker st) (now st) (w_sched w (selects st)))]
       \<and> length (connect_times (trace (snd (HandleConnect_loop (Suc fuel) w ctx st))))
           = length (connect_times (trace st)) + 10
       \<and> goroutines (trace (snd (HandleConnect_loop (Suc fuel) w ctx st))) = goroutines (trace st)
       \<and> HandleConnect_loop (Suc 0) w ctx st = HandleConnect_loop (Suc fuel) w ctx st"
proof -
  obtain t where sel: "select_wait ctx (ticker st) (now st) (w_sched w (selects st)) = (Case_Timer, t)"
    using timer by (cases "select_wait ctx (ticker st) (now st) (w_sched w (selects st))") simp
  obtain e where pe: "Ping (snd (w_probe w (pings st))) (self st) ctx = Some e"
    using probe by blast
  let ?st1 = "st\<lparr>now := t + fst (w_probe w (pings st)),
         selects := Suc (selects st),
         pings := Suc (pings st),
         trace := trace st @ [Ev_Ping t (t + fst (w_probe w (pings st))) (Some e)]\<rparr>"
  obtain err' st2 where rc: "reconnect w ctx 0 (Some e) ?st1 = (err', st2)"
    by (cases "reconnect w ctx 0 (Some e) ?st1")
  have fac: "\<forall>i < reconnectAttempts - 0.
      isl (snd (w_create w (connects ?st1 + i)) (Connect_cluster (w_NewCluster w) []))"
    using factory by simp
  from reconnect_all_fail[of "Some e" 0 w ?st1 ctx, OF _ fac] rc
  have err: "err' \<noteq> None" and slf: "self st2 = self st"
    and cn: "length (connect_times (trace st2)) = length (connect_times (trace st)) + 10"
    and go: "goroutines (trace st2) = goroutines (trace st)"
    by (simp_all add: connect_times_append goroutines_append reconnectAttempts_def)
  from reconnect_frame[of w ctx 0 "Some e" ?st1] rc
  have pt: "ping_times (trace st2) = ping_times (trace st) @ [t]"
    by (simp add: ping_times_append)
  have run: "\<And>n. HandleConnect_loop (Suc n) w ctx st = (Returned, st2)"
    using err by (simp only: loop_Timer_fail[OF sel pe rc]) simp
  show ?thesis
    unfolding run by (simp add: sel slf cn go pt)
qed

text \<open>
  A fresh session on a cluster that is down: one probe at the start, ten attempts, and
  the loop has returned with the session as it was.
\<close>

theorem fail_stop_witness:
  "HandleConnect (Suc 0) world_cluster_down (Context None) session_sample 0
     = HandleConnect (Suc (Suc (Suc 0))) world_cluster_down (Context None) session_sample 0
   \<and> fst (HandleConnect (Suc (Suc (Suc 0))) world_cluster_down (Context None) session_sample 0)
       = Returned
   \<and> self (snd (HandleConnect (Suc (Suc (Suc 0))) world_cluster_down (Context None)
        session_sample 0)) = session_sample
   \<and> ping_times (trace (snd (HandleConnect (Suc (Suc (Suc 0))) world_cluster_down
        (Context None) session_sample 0))) = [0]
   \<and> length (connect_times (trace (snd (HandleConnect (Suc (Suc (Suc 0))) world_cluster_down
        (Context None) session_sample 0)))) = 10"
proof -
  let ?st = "\<lparr>self = session_sample, now = 0, ticker = 0 + nat 0, selects = 0, pings = 0,
        connects = 0, trace = []\<rparr>"
  have timer: "fst (select_wait (Context None) (ticker ?st) (now ?st)
                 (w_sched world_cluster_down (selects ?st))) = Case_Timer"
    by (simp add: select_wait_def)
  have probe: "Ping (snd (w_probe world_cluster_down (pings ?st))) (self ?st) (Context None) \<noteq> None"
    by (simp add: Ping_def world_cluster_down_def)
  have factory: "\<forall>i<reconnectAttempts.
      isl (snd (w_create world_cluster_down (connects ?st + i))
             (Connect_cluster (w_NewCluster world_cluster_down) []))"
    by (simp add: world_cluster_down_def)
  from fail_stop [OF timer probe factory, of "Suc (Suc 0)"] show ?thesis
    by (simp add: HandleConnect_def select_wait_def world_cluster_down_def
          del: HandleConnect_loop.simps)
qed

section \<open>Cancellation\<close>

text \<open>
  C4, as stated, fails. The context is cancelled at 6 ns, during the first connection
  attempt of a recovery. The nine attempts after it are still made, at 8 ns, 11 ns, and so
  on to 32 ns.
\<close>

theorem cancel_in_recovery_counterexample:
  "calls_after 6 (trace (snd (HandleConnect (Suc 0) world_cluster_down (Context (Some 6))
      session_sample 0)))
   = [Ev_Connect 8 11 (Some (DriverError ''no hosts'')),
      Ev_Connect 11 14 (Some (DriverError ''no hosts'')),
      Ev_Connect 14 17 (Some (DriverError ''no hosts'')),
      Ev_Connect 17 20 (Some (DriverError ''no hosts'')),
      Ev_Connect 20 23 (Some (DriverError ''no hosts'')),
      Ev_Connect 23 26 (Some (DriverError ''no hosts'')),
      Ev_Connect 26 29 (Some (DriverError ''no hosts'')),
      Ev_Connect 29 32 (Some (DriverError ''no hosts'')),
      Ev_Connect 32 35 (Some (DriverError ''no hosts''))]"
  by (simp add: run_defs world_cluster_down_def)

text \<open>
  C4, amended. The loop looks at the context at one place, the \<open>select\<close> at its head.
  Whenever the \<open>select\<close> takes the cancellation case, the loop returns at once: no
  further probe, no further connection attempt, the session as it was. The \<open>select\<close>
  takes that case for certain when the context is cancelled before the timer is due and
  the goroutine reaches the \<open>select\<close> before the timer is due, that is, when the
  cancellation comes while the loop waits for the next probe.
\<close>

theorem cancel_at_the_wait:
  "(fst (select_wait ctx (ticker st) (now st) (w_sched w (selects st))) = Case_Done \<longrightarrow>
       fst (HandleConnect_loop (Suc fuel) w ctx st) = Returned
       \<and> trace (snd (HandleConnect_loop (Suc fuel) w ctx st)) = trace st
       \<and> self (snd (HandleConnect_loop (Suc fuel) w ctx st)) = self st)
   \<and> (done_at ctx = Some c \<longrightarrow> c < ticker st \<longrightarrow>
        now st + fst (w_sched w (selects st)) < ticker st \<longrightarrow>
       HandleConnect_loop (Suc fuel) w ctx st =
         (Returned, st\<lparr>now := max (now st + fst (w_sched w (selects st))) c,
                        selects := Suc (selects st)\<rparr>))"
proof -
  have 1: "fst (HandleConnect_loop (Suc fuel) w ctx st) = Returned
       \<and> trace (snd (HandleConnect_loop (Suc fuel) w ctx st)) = trace st
       \<and> self (snd (HandleConnect_loop (Suc fuel) w ctx st)) = self st"
    if cd: "fst (select_wait ctx (ticker st) (now st) (w_sched w (selects st))) = Case_Done"
  proof -
    obtain t where "select_wait ctx (ticker st) (now st) (w_sched w (selects st)) = (Case_Done, t)"
      using cd by (cases "select_wait ctx (ticker st) (now st) (w_sched w (selects st))") auto
    then show ?thesis by (simp add: loop_Done)
  qed
  have 2: "HandleConnect_loop (Suc fuel) w ctx st =
         (Returned, st\<lparr>now := max (now st + fst (w_sched w (selects st))) c,
                        selects := Suc (selects st)\<rparr>)"
    if "done_at ctx = Some c" "c < ticker st" "now st + fst (w_sched w (selects st)) < ticker st"
  proof -
    have "select_wait ctx (ticker st) (now st) (w_sched w (selects st))
            = (Case_Done, max (now st + fst (w_sched w (selects st))) c)"
      using that by (auto simp: select_wait_def Let_def max_def)
    then show ?thesis by (rule loop_Done)
  qed
  from 1 2 show ?thesis by blast
qed

text \<open>
  A healthy session whose context is cancelled at 7 ns, while the loop waits for the
  second probe: the loop returns at 7 ns, with the one probe of the start and nothing
  after it.
\<close>

theorem cancel_at_the_wait_witness:
  "HandleConnect (Suc (Suc (Suc 0))) world_healthy (Context (Some 7)) session_sample 0
     = (Returned,
        \<lparr>self = session_sample, now = 7, ticker = 1000000005, selects = 2, pings = 1,
         connects = 0, trace = [Ev_Ping 0 5 None]\<rparr>)"
proof -
  let ?ctx = "Context (Some 7)"
  let ?st = "\<lparr>self = session_sample, now = 5, ticker = 1000000005, selects = 1, pings = 1,
         connects = 0, trace = [Ev_Ping 0 5 None]\<rparr>"
  have first: "HandleConnect (Suc (Suc (Suc 0))) world_healthy ?ctx session_sample 0
         = HandleConnect_loop (Suc (Suc 0)) world_healthy ?ctx ?st"
    unfolding HandleConnect_def
    by (subst loop_Timer_ok[where t=0])
       (simp_all add: select_wait_def Ping_def world_healthy_def pingInterval_def Second_def
          del: HandleConnect_loop.simps)
  have a: "done_at ?ctx = Some 7" by simp
  have b: "7 < ticker ?st" by simp
  have c: "now ?st + fst (w_sched world_healthy (selects ?st)) < ticker ?st"
    by (simp add: world_healthy_def)
  from cancel_at_the_wait [of ?ctx ?st world_healthy "Suc 0" 7] a b c
  have "HandleConnect_loop (Suc (Suc 0)) world_healthy ?ctx ?st =
      (Returned, ?st\<lparr>now := max (now ?st + fst (w_sched world_healthy (selects ?st))) 7,
                        selects := Suc (selects ?st)\<rparr>)"
    by blast
  then show ?thesis unfolding first by (simp add: world_healthy_def del: HandleConnect_loop.simps)
qed

section \<open>The instants of the probes\<close>

lemma reconnect_trace_grows:
  "\<exists>evs. trace (snd (reconnect w ctx a err st)) = trace st @ evs"
proof (induction "reconnectAttempts - a" arbitrary: a err st)
  case 0
  then show ?case by (simp add: reconnect_exhausted)
next
  case (Suc n)
  show ?case
  proof (cases "a < reconnectAttempts \<and> err \<noteq> None")
    case False
    then show ?thesis by (cases err) (simp_all add: reconnect_exhausted reconnect_ok)
  next
    case True
    obtain err' sess' gs where sc:
      "Session_Connect (w_NewCluster w) (snd (w_create w (connects st))) ctx (self st) = (err', sess', gs)"
      by (cases "Session_Connect (w_NewCluster w) (snd (w_create w (connects st))) ctx (self st)")
    let ?st' = "st\<lparr>self := sess',
                   now := now st + fst (w_create w (connects st)),
                   connects := Suc (connects st),
                   trace := trace st @ [Ev_Connect (now st) (now st + fst (w_create w (connects st))) err']
                            @ map (Ev_Go (now st + fst (w_create w (connects st)))) gs\<rparr>"
    have eq: "reconnect w ctx a err st = reconnect w ctx (Suc a) err' ?st'"
      using True sc by (simp add: reconnect_step)
    have n: "n = reconnectAttempts - Suc a" using Suc.hyps(2) by simp
    from Suc.hyps(1)[OF n, of err' ?st'] obtain evs where
      "trace (snd (reconnect w ctx (Suc a) err' ?st')) = trace ?st' @ evs" by blast
    then show ?thesis by (simp add: eq)
  qed
qed

lemma loop_trace_grows:
  "\<exists>evs. trace (snd (HandleConnect_loop fuel w ctx st)) = trace st @ evs"
proof (induction fuel arbitrary: st)
  case 0
  show ?case by simp
next
  case (Suc fuel)
  obtain c t where sel: "select_wait ctx (ticker st) (now st) (w_sched w (selects st)) = (c, t)"
    by (cases "select_wait ctx (ticker st) (now st) (w_sched w (selects st))")
  show ?case
  proof (cases c)
    case Case_Done
    with sel show ?thesis by (simp add: loop_Done)
  next
    case Case_Timer
    with sel have selT: "select_wait ctx (ticker st) (now st) (w_sched w (selects st)) = (Case_Timer, t)"
      by simp
    show ?thesis
    proof (cases "Ping (snd (w_probe w (pings st))) (self st) ctx")
      case None
      let ?st' = "st\<lparr>now := t + fst (w_probe w (pings st)),
           selects := Suc (selects st),
           pings := Suc (pings st),
           trace := trace st @ [Ev_Ping t (t + fst (w_probe w (pings st))) None],
           ticker := t + fst (w_probe w (pings st)) + nat pingInterval\<rparr>"
      from Suc.IH[of ?st'] obtain evs where
        "trace (snd (HandleConnect_loop fuel w ctx ?st')) = trace ?st' @ evs" by blast
      then show ?thesis by (simp only: loop_Timer_ok[OF selT None]) simp
    next
      case (Some e)
      let ?st1 = "st\<lparr>now := t + fst (w_probe w (pings st)),
         selects := Suc (selects st),
         pings := Suc (pings st),
         trace := trace st @ [Ev_Ping t (t + fst (w_probe w (pings st))) (Some e)]\<rparr>"
      obtain err' st2 where rc: "reconnect w ctx 0 (Some e) ?st1 = (err', st2)"
        by (cases "reconnect w ctx 0 (Some e) ?st1")
      from reconnect_trace_grows[of w ctx 0 "Some e" ?st1] rc
      obtain evs where g: "trace st2 = trace st @ Ev_Ping t (t + fst (w_probe w (pings st))) (Some e) # evs" by auto
      show ?thesis
      proof (cases "err' = None")
        case False
        then show ?thesis using g by (simp only: loop_Timer_fail[OF selT Some rc]) simp
      next
        case True
        from Suc.IH[of "st2\<lparr>ticker := now st2 + nat pingInterval\<rparr>"] obtain evs' where
          "trace (snd (HandleConnect_loop fuel w ctx (st2\<lparr>ticker := now st2 + nat pingInterval\<rparr>)))
             = trace st2 @ evs'" by auto
        then show ?thesis using g True by (simp only: loop_Timer_fail[OF selT Some rc]) simp
      qed
    qed
  qed
qed

lemma loop_first_probe:
  "select_wait ctx (ticker st) (now st) (w_sched w (selects st)) = (Case_Timer, t) \<Longrightarrow>
   \<exists>t' r evs. trace (snd (HandleConnect_loop (Suc fuel) w ctx st))
                = trace st @ Ev_Ping t t' r # evs"
proof -
  assume selT: "select_wait ctx (ticker st) (now st) (w_sched w (selects st)) = (Case_Timer, t)"
  show ?thesis
  proof (cases "Ping (snd (w_probe w (pings st))) (self st) ctx")
    case None
    let ?st' = "st\<lparr>now := t + fst (w_probe w (pings st)),
           selects := Suc (selects st),
           pings := Suc (pings st),
           trace := trace st @ [Ev_Ping t (t + fst (w_probe w (pings st))) None],
           ticker := t + fst (w_probe w (pings st)) + nat pingInterval\<rparr>"
    from loop_trace_grows[of fuel w ctx ?st'] obtain evs where
        "trace (snd (HandleConnect_loop fuel w ctx ?st')) = trace ?st' @ evs" by blast
    then show ?thesis by (simp only: loop_Timer_ok[OF selT None]) simp
  next
    case (Some e)
    let ?st1 = "st\<lparr>now := t + fst (w_probe w (pings st)),
         selects := Suc (selects st),
         pings := Suc (pings st),
         trace := trace st @ [Ev_Ping t (t + fst (w_probe w (pings st))) (Some e)]\<rparr>"
    obtain err' st2 where rc: "reconnect w ctx 0 (Some e) ?st1 = (err', st2)"
      by (cases "reconnect w ctx 0 (Some e) ?st1")
    from reconnect_trace_grows[of w ctx 0 "Some e" ?st1] rc
    obtain evs where g: "trace st2 = trace st @ Ev_Ping t (t + fst (w_probe w (pings st))) (Some e) # evs" by auto
    show ?thesis
    proof (cases "err' = None")
      case False
      then show ?thesis using g by (simp only: loop_Timer_fail[OF selT Some rc]) simp
    next
      case True
      from loop_trace_grows[of fuel w ctx "st2\<lparr>ticker := now st2 + nat pingInterval\<rparr>"] obtain evs' where
          "trace (snd (HandleConnect_loop fuel w ctx (st2\<lparr>ticker := now st2 + nat pingInterval\<rparr>)))
             = trace st2 @ evs'" by auto
      then show ?thesis using g True by (simp only: loop_Timer_fail[OF selT Some rc]) simp
    qed
  qed
qed

text \<open>
  C8. In every run of \<open>HandleConnect\<close>, in every world, each probe after the first
  is made at least the interval, one second, after the return of the probe before it. The first probe
  waits for no timer: when the context is not yet cancelled as the goroutine reaches its
  first \<open>select\<close>, the first probe is made at that very instant.
\<close>

theorem probe_schedule:
  "spaced (nat pingInterval) (ping_spans (trace (snd (HandleConnect fuel w ctx session t0))))
   \<and> nat pingInterval = 1000000000
   \<and> ((case done_at ctx of None \<Rightarrow> True | Some c \<Rightarrow> t0 + fst (w_sched w 0) < c) \<longrightarrow>
        (\<exists>rest. ping_times (trace (snd (HandleConnect (Suc fuel) w ctx session t0)))
                 = (t0 + fst (w_sched w 0)) # rest))"
proof -
  have 1: "spaced (nat pingInterval) (ping_spans (trace (snd (HandleConnect fuel w ctx session t0))))"
    unfolding HandleConnect_def by (rule loop_spaced) (simp add: probe_inv_def)
  have 2: "nat pingInterval = 1000000000"
    by (simp add: pingInterval_def Second_def)
  have 3: "\<exists>rest. ping_times (trace (snd (HandleConnect (Suc fuel) w ctx session t0)))
                 = (t0 + fst (w_sched w 0)) # rest"
    if live: "case done_at ctx of None \<Rightarrow> True | Some c \<Rightarrow> t0 + fst (w_sched w 0) < c"
  proof -
    let ?st = "\<lparr>self = session, now = t0, ticker = t0 + nat 0, selects = 0, pings = 0,
                connects = 0, trace = []\<rparr>"
    have "select_wait ctx (ticker ?st) (now ?st) (w_sched w (selects ?st))
            = (Case_Timer, t0 + fst (w_sched w 0))"
      using live by (auto simp: select_wait_def Let_def split: option.splits)
    from loop_first_probe[OF this, of fuel] show ?thesis
      by (auto simp: HandleConnect_def ping_times_append simp del: HandleConnect_loop.simps)
  qed
  from 1 2 3 show ?thesis by blast
qed

text \<open>
  One outage at the start, then a healthy cluster: probes at 0 ns, then one second after
  the reconnection, then one second after the end of the second probe.
\<close>

theorem probe_schedule_witness:
  "ping_spans (trace (snd (HandleConnect (Suc (Suc (Suc 0))) world_one_outage (Context None)
       session_sample 0))) = [(0, 5), (1000000008, 1000000013), (2000000013, 2000000018)]
   \<and> spaced (nat pingInterval) [(0, 5), (1000000008, 1000000013), (2000000013, 2000000018)]
   \<and> (\<exists>rest. ping_times (trace (snd (HandleConnect (Suc (Suc (Suc 0))) world_one_outage
        (Context None) session_sample 0))) = (0 + fst (w_sched world_one_outage 0)) # rest)"
proof -
  have run: "ping_spans (trace (snd (HandleConnect (Suc (Suc (Suc 0))) world_one_outage
       (Context None) session_sample 0)))
     = [(0, 5), (1000000008, 1000000013), (2000000013, 2000000018)]"
    by (simp add: run_defs world_one_outage_def)
  from probe_schedule [of "Suc (Suc (Suc 0))" world_one_outage "Context None" session_sample 0]
  have "spaced (nat pingInterval) (ping_spans (trace (snd (HandleConnect (Suc (Suc (Suc 0)))
          world_one_outage (Context None) session_sample 0))))" by blast
  moreover
  from probe_schedule [of "Suc (Suc 0)" world_one_outage "Context None" session_sample 0]
  have "\<exists>rest. ping_times (trace (snd (HandleConnect (Suc (Suc (Suc 0))) world_one_outage
        (Context None) session_sample 0))) = (0 + fst (w_sched world_one_outage 0)) # rest"
    by simp
  ultimately show ?thesis using run by simp
qed

section \<open>One loop for a session\<close>

lemma call_spans_append: "call_spans (xs @ ys) = call_spans xs @ call_spans ys"
  by (induction xs rule: call_spans.induct) simp_all

lemma call_spans_Go: "call_spans (map (Ev_Go t) gs) = []"
  by (induction gs) simp_all

lemma sequential_snoc:
  "sequential ps \<Longrightarrow> (\<forall>p\<in>set ps. snd p \<le> fst q) \<Longrightarrow> fst q \<le> snd q \<Longrightarrow>
   sequential (ps @ [q])"
  by (induction ps rule: sequential.induct) simp_all

lemma seq_inv_call:
  "seq_inv st \<Longrightarrow> now st \<le> t \<Longrightarrow> call_spans evs = [(t, t + d)] \<Longrightarrow>
   call_spans gos = [] \<Longrightarrow>
   seq_inv (st\<lparr>now := t + d, trace := trace st @ evs @ gos\<rparr>)"
  by (fastforce simp: seq_inv_def call_spans_append intro!: sequential_snoc)

lemma seq_inv_frame:
  "seq_inv st \<Longrightarrow> trace st' = trace st \<Longrightarrow> now st \<le> now st' \<Longrightarrow> seq_inv st'"
  by (fastforce simp: seq_inv_def)

lemma select_wait_later: "select_wait ctx tick t0 sc = (c, t) \<Longrightarrow> t0 \<le> t"
  by (auto simp: select_wait_def Let_def split: option.splits if_splits)

lemma reconnect_seq:
  "seq_inv st \<Longrightarrow> seq_inv (snd (reconnect w ctx a err st))"
proof (induction "reconnectAttempts - a" arbitrary: a err st)
  case 0
  then show ?case by (simp add: reconnect_exhausted)
next
  case (Suc n)
  show ?case
  proof (cases "a < reconnectAttempts \<and> err \<noteq> None")
    case False
    with Suc.prems show ?thesis by (cases err) (simp_all add: reconnect_exhausted reconnect_ok)
  next
    case True
    obtain err' sess' gs where sc:
      "Session_Connect (w_NewCluster w) (snd (w_create w (connects st))) ctx (self st)
         = (err', sess', gs)"
      by (cases "Session_Connect (w_NewCluster w) (snd (w_create w (connects st))) ctx (self st)")
    let ?d = "fst (w_create w (connects st))"
    let ?st' = "st\<lparr>self := sess',
                   now := now st + ?d,
                   connects := Suc (connects st),
                   trace := trace st @ [Ev_Connect (now st) (now st + ?d) err']
                            @ map (Ev_Go (now st + ?d)) gs\<rparr>"
    have eq: "reconnect w ctx a err st = reconnect w ctx (Suc a) err' ?st'"
      using True sc by (simp add: reconnect_step)
    have n: "n = reconnectAttempts - Suc a" using Suc.hyps(2) by simp
    have "seq_inv (st\<lparr>now := now st + ?d,
               trace := trace st @ [Ev_Connect (now st) (now st + ?d) err']
                            @ map (Ev_Go (now st + ?d)) gs\<rparr>)"
      using Suc.prems by (intro seq_inv_call) (simp_all add: call_spans_Go)
    then have "seq_inv ?st'" by (simp add: seq_inv_def)
    from Suc.hyps(1)[OF n this] show ?thesis by (simp add: eq)
  qed
qed

lemma loop_seq:
  "seq_inv st \<Longrightarrow> seq_inv (snd (HandleConnect_loop fuel w ctx st))"
proof (induction fuel arbitrary: st)
  case 0
  then show ?case by simp
next
  case (Suc fuel)
  obtain c t where sel: "select_wait ctx (ticker st) (now st) (w_sched w (selects st)) = (c, t)"
    by (cases "select_wait ctx (ticker st) (now st) (w_sched w (selects st))")
  then have later: "now st \<le> t" by (rule select_wait_later)
  show ?case
  proof (cases c)
    case Case_Done
    with sel Suc.prems later show ?thesis by (fastforce simp: loop_Done seq_inv_def)
  next
    case Case_Timer
    with sel have selT:
      "select_wait ctx (ticker st) (now st) (w_sched w (selects st)) = (Case_Timer, t)"
      by simp
    let ?d = "fst (w_probe w (pings st))"
    have step: "\<And>r. seq_inv (st\<lparr>now := t + ?d, trace := trace st @ [Ev_Ping t (t + ?d) r] @ []\<rparr>)"
      using Suc.prems later by (intro seq_inv_call) simp_all
    show ?thesis
    proof (cases "Ping (snd (w_probe w (pings st))) (self st) ctx")
      case None
      let ?st' = "st\<lparr>now := t + fst (w_probe w (pings st)),
           selects := Suc (selects st),
           pings := Suc (pings st),
           trace := trace st @ [Ev_Ping t (t + fst (w_probe w (pings st))) None],
           ticker := t + fst (w_probe w (pings st)) + nat pingInterval\<rparr>"
      have "seq_inv ?st'" using step[of None] by (simp add: seq_inv_def)
      from Suc.IH[OF this] show ?thesis by (simp only: loop_Timer_ok[OF selT None])
    next
      case (Some e)
      let ?st1 = "st\<lparr>now := t + fst (w_probe w (pings st)),
         selects := Suc (selects st),
         pings := Suc (pings st),
         trace := trace st @ [Ev_Ping t (t + fst (w_probe w (pings st))) (Some e)]\<rparr>"
      obtain err' st2 where rc: "reconnect w ctx 0 (Some e) ?st1 = (err', st2)"
        by (cases "reconnect w ctx 0 (Some e) ?st1")
      have "seq_inv ?st1" using step[of "Some e"] by (simp add: seq_inv_def)
      from reconnect_seq[OF this, of w ctx 0 "Some e"] rc have s2: "seq_inv st2" by simp
      show ?thesis
      proof (cases "err' = None")
        case False
        then show ?thesis using s2 by (simp only: loop_Timer_fail[OF selT Some rc]) simp
      next
        case True
        have "seq_inv (st2\<lparr>ticker := now st2 + nat pingInterval\<rparr>)"
          using s2 by (simp add: seq_inv_def)
        from Suc.IH[OF this] True show ?thesis
          by (simp only: loop_Timer_fail[OF selT Some rc]) simp
      qed
    qed
  qed
qed

lemma reconnect_refused:
  "(\<forall>k. isl (snd (w_create w k) (Connect_cluster (w_NewCluster w) []))) \<Longrightarrow>
   goroutines (trace (snd (reconnect w ctx a err st))) = goroutines (trace st)
   \<and> self (snd (reconnect w ctx a err st)) = self st"
proof (induction "reconnectAttempts - a" arbitrary: a err st)
  case 0
  then show ?case by (simp add: reconnect_exhausted)
next
  case (Suc n)
  show ?case
  proof (cases "a < reconnectAttempts \<and> err \<noteq> None")
    case False
    then show ?thesis by (cases err) (simp_all add: reconnect_exhausted reconnect_ok)
  next
    case True
    from Suc.prems
    have f0: "isl (snd (w_create w (connects st)) (Connect_cluster (w_NewCluster w) []))"
      by blast
    let ?e = "Some (DriverError (projl (snd (w_create w (connects st))
                 (Connect_cluster (w_NewCluster w) []))))"
    let ?st' = "st\<lparr>self := self st,
                   now := now st + fst (w_create w (connects st)),
                   connects := Suc (connects st),
                   trace := trace st
                            @ [Ev_Connect (now st) (now st + fst (w_create w (connects st))) ?e]
                            @ map (Ev_Go (now st + fst (w_create w (connects st)))) []\<rparr>"
    have eq: "reconnect w ctx a err st = reconnect w ctx (Suc a) ?e ?st'"
      using True
      by (intro reconnect_step
            Session_Connect_fail[of "snd (w_create w (connects st))" "w_NewCluster w" ctx "self st",
              OF f0]) simp_all
    have n: "n = reconnectAttempts - Suc a" using Suc.hyps(2) by simp
    from Suc.hyps(1)[OF n Suc.prems, of ?e ?st'] show ?thesis
      by (simp add: eq goroutines_append)
  qed
qed

lemma loop_refused:
  "(\<forall>k. isl (snd (w_create w k) (Connect_cluster (w_NewCluster w) []))) \<Longrightarrow>
   goroutines (trace (snd (HandleConnect_loop fuel w ctx st))) = goroutines (trace st)
   \<and> self (snd (HandleConnect_loop fuel w ctx st)) = self st"
proof (induction fuel arbitrary: st)
  case 0
  then show ?case by simp
next
  case (Suc fuel)
  obtain c t where sel: "select_wait ctx (ticker st) (now st) (w_sched w (selects st)) = (c, t)"
    by (cases "select_wait ctx (ticker st) (now st) (w_sched w (selects st))")
  show ?case
  proof (cases c)
    case Case_Done
    with sel show ?thesis by (simp add: loop_Done)
  next
    case Case_Timer
    with sel have selT:
      "select_wait ctx (ticker st) (now st) (w_sched w (selects st)) = (Case_Timer, t)"
      by simp
    show ?thesis
    proof (cases "Ping (snd (w_probe w (pings st))) (self st) ctx")
      case None
      let ?st' = "st\<lparr>now := t + fst (w_probe w (pings st)),
           selects := Suc (selects st),
           pings := Suc (pings st),
           trace := trace st @ [Ev_Ping t (t + fst (w_probe w (pings st))) None],
           ticker := t + fst (w_probe w (pings st)) + nat pingInterval\<rparr>"
      from Suc.IH[OF Suc.prems, of ?st'] show ?thesis
        by (simp only: loop_Timer_ok[OF selT None]) (simp add: goroutines_append)
    next
      case (Some e)
      let ?st1 = "st\<lparr>now := t + fst (w_probe w (pings st)),
         selects := Suc (selects st),
         pings := Suc (pings st),
         trace := trace st @ [Ev_Ping t (t + fst (w_probe w (pings st))) (Some e)]\<rparr>"
      obtain err' st2 where rc: "reconnect w ctx 0 (Some e) ?st1 = (err', st2)"
        by (cases "reconnect w ctx 0 (Some e) ?st1")
      from reconnect_refused[OF Suc.prems, of ctx 0 "Some e" ?st1] rc
      have s2: "goroutines (trace st2) = goroutines (trace st)" "self st2 = self st"
        by (simp_all add: goroutines_append)
      show ?thesis
      proof (cases "err' = None")
        case False
        then show ?thesis using s2 by (simp only: loop_Timer_fail[OF selT Some rc]) simp
      next
        case True
        from Suc.IH[OF Suc.prems, of "st2\<lparr>ticker := now st2 + nat pingInterval\<rparr>"] True s2
        show ?thesis by (simp only: loop_Timer_fail[OF selT Some rc]) simp
      qed
    qed
  qed
qed

text \<open>
  C10, as stated, fails: a session does not have a supervisor loop at every instant.
  On a cluster that is down the loop returns in its first iteration, and from then on no
  loop works for the session.
\<close>

theorem no_loop_after_fail_stop_counterexample:
  "loops_on (HandleConnect (Suc 0) world_cluster_down (Context None) session_sample 0) = []"
  by (simp add: run_defs world_cluster_down_def loops_on_def)

text \<open>
  C10, amended. \<open>Connect\<close> starts one loop, for the session it returns. In every run,
  in every world, the probes and connection attempts of a loop are sequential: each is
  made no earlier than the return of the one before it. When the driver refuses the
  configuration of a reconnection, as it does for one that names no host, the loop starts
  no other loop and leaves the session as it is: one loop works on the session's handle
  as long as the loop runs, none once it has returned, and never two.
\<close>

theorem one_loop_per_session:
  "(case Connect nc cs ctx opts of
      Inl e \<Rightarrow> True
    | Inr (sess, g) \<Rightarrow> g = Go_HandleConnect sess ctx)
   \<and> sequential (call_spans (trace (snd (HandleConnect fuel w ctx session start))))
   \<and> ((\<forall>k. isl (snd (w_create w k) (Connect_cluster (w_NewCluster w) []))) \<longrightarrow>
        goroutines (trace (snd (HandleConnect fuel w ctx session start))) = []
        \<and> self (snd (HandleConnect fuel w ctx session start)) = session
        \<and> loops_on (HandleConnect fuel w ctx session start)
            = (if fst (HandleConnect fuel w ctx session start) = Running then [s session] else []))"
proof -
  let ?st0 = "\<lparr>self = session, now = start, ticker = start + nat 0, selects = 0, pings = 0,
               connects = 0, trace = []\<rparr>"
  have 1: "case Connect nc cs ctx opts of
      Inl e \<Rightarrow> True
    | Inr (sess, g) \<Rightarrow> g = Go_HandleConnect sess ctx"
    by (simp add: Connect_def Let_def split: sum.splits)
  have "seq_inv (snd (HandleConnect_loop fuel w ctx ?st0))"
    by (rule loop_seq) (simp add: seq_inv_def)
  then have 2: "sequential (call_spans (trace (snd (HandleConnect fuel w ctx session start))))"
    by (simp add: HandleConnect_def seq_inv_def)
  have 3: "goroutines (trace (snd (HandleConnect fuel w ctx session start))) = []
        \<and> self (snd (HandleConnect fuel w ctx session start)) = session
        \<and> loops_on (HandleConnect fuel w ctx session start)
            = (if fst (HandleConnect fuel w ctx session start) = Running then [s session] else [])"
    if refuses: "\<forall>k. isl (snd (w_create w k) (Connect_cluster (w_NewCluster w) []))"
    using loop_refused[OF refuses, of fuel ctx ?st0]
    by (simp add: HandleConnect_def loops_on_def)
  from 1 2 3 show ?thesis by blast
qed

text \<open>
  On a cluster that is down: one loop on the handle 1 at the start, the eleven calls of
  its only iteration one after the other, no loop started, the session as it was.
\<close>

theorem one_loop_per_session_witness:
  "loops_on (HandleConnect 0 world_cluster_down (Context None) session_sample 0) = [1]
   \<and> goroutines (trace (snd (HandleConnect (Suc (Suc 0)) world_cluster_down (Context None)
        session_sample 0))) = []
   \<and> self (snd (HandleConnect (Suc (Suc 0)) world_cluster_down (Context None)
        session_sample 0)) = session_sample
   \<and> call_spans (trace (snd (HandleConnect (Suc (Suc 0)) world_cluster_down (Context None)
        session_sample 0)))
       = [(0, 5), (5, 8), (8, 11), (11, 14), (14, 17), (17, 20), (20, 23), (23, 26), (26, 29),
          (29, 32), (32, 35)]
   \<and> sequential [(0, 5), (5, 8), (8, 11), (11, 14), (14, 17), (17, 20), (20, 23), (23, 26),
        (26, 29), (29, 32), (32, 35)]"
proof -
  have refuses: "\<forall>k. isl (snd (w_create world_cluster_down k)
                     (Connect_cluster (w_NewCluster world_cluster_down) []))"
    by (simp add: world_cluster_down_def)
  have spans: "call_spans (trace (snd (HandleConnect (Suc (Suc 0)) world_cluster_down
        (Context None) session_sample 0)))
       = [(0, 5), (5, 8), (8, 11), (11, 14), (14, 17), (17, 20), (20, 23), (23, 26), (26, 29),
          (29, 32), (32, 35)]"
    by (simp add: run_defs world_cluster_down_def)
  have start: "fst (HandleConnect 0 world_cluster_down (Context None) session_sample 0) = Running"
    by (simp add: HandleConnect_def)
  from one_loop_per_session [where nc = NewCluster_sample and cs = "\<lambda>cfg. Inr 1"
      and ctx = "Context None" and opts = "[]" and fuel = 0 and w = world_cluster_down
      and session = session_sample and start = 0] refuses start
  have a: "loops_on (HandleConnect 0 world_cluster_down (Context None) session_sample 0) = [1]"
    by (simp add: session_sample_def)
  from one_loop_per_session [where nc = NewCluster_sample and cs = "\<lambda>cfg. Inr 1"
      and ctx = "Context None" and opts = "[]" and fuel = "Suc (Suc 0)"
      and w = world_cluster_down and session = session_sample and start = 0] refuses
  have b: "goroutines (trace (snd (HandleConnect (Suc (Suc 0)) world_cluster_down (Context None)
        session_sample 0))) = []"
    and c: "self (snd (HandleConnect (Suc (Suc 0)) world_cluster_down (Context None)
        session_sample 0)) = session_sample"
    and d: "sequential (call_spans (trace (snd (HandleConnect (Suc (Suc 0)) world_cluster_down
        (Context None) session_sample 0))))"
    by blast+
  from a b c d spans show ?thesis by simp
qed

end
